theory Spec2Isabelle
  imports Main
begin

section \<open>Telegram status issues: the data model\<close>

text \<open>
  The source file \<^verbatim>\<open>src/channels/plugins/status-issues/telegram.ts\<close> reads untyped
  account snapshots (\<^verbatim>\<open>unknown\<close> values) and turns them into a list of issues.

  Numbers. A JavaScript number is a double. The code only asks four things of a number:
  whether it is finite, whether it is \<^verbatim>\<open>=== 401\<close> or \<^verbatim>\<open>=== 403\<close>, whether it is truthy
  and \<^verbatim>\<open>> 0\<close>, and its rendering inside a template string. \<open>NInt i\<close> is the
  integer-valued double \<open>i\<close> (of magnitude below \<open>10^21\<close>, which JavaScript prints in plain
  decimal; \<open>-0\<close> is \<open>NInt 0\<close>, the code cannot tell them apart). \<open>NFrac pos txt\<close> is any
  other finite double, given by its sign and its rendering. The remaining three are the
  non-finite values.
\<close>

datatype jsnum = NInt int | NFrac bool string | NNaN | NPosInf | NNegInf

text \<open>
  Values. An object is an association list from property names to values; reading a
  property takes the first binding and gives \<open>JUndefined\<close> when there is none.
\<close>

datatype jsval =
    JUndefined
  | JNull
  | JBool bool
  | JNum jsnum
  | JStr string
  | JArr "jsval list"
  | JObj "(string \<times> jsval) list"

fun getProp :: "jsval \<Rightarrow> string \<Rightarrow> jsval" where
  "getProp (JObj kvs) k = (case map_of kvs k of None \<Rightarrow> JUndefined | Some v \<Rightarrow> v)"
| "getProp _ k = JUndefined"

subsection \<open>Numbers\<close>

definition isFinite :: "jsnum \<Rightarrow> bool" where
  "isFinite n = (case n of NInt _ \<Rightarrow> True | NFrac _ _ \<Rightarrow> True | _ \<Rightarrow> False)"

text \<open>\<^verbatim>\<open>n > 0\<close>; every comparison with NaN is false.\<close>

definition num_gt_zero :: "jsnum \<Rightarrow> bool" where
  "num_gt_zero n =
     (case n of NInt i \<Rightarrow> 0 < i | NFrac pos _ \<Rightarrow> pos | NPosInf \<Rightarrow> True | _ \<Rightarrow> False)"

text \<open>Truthiness of a number: \<open>0\<close> and NaN are falsy.\<close>

definition num_truthy :: "jsnum \<Rightarrow> bool" where
  "num_truthy n = (case n of NInt i \<Rightarrow> i \<noteq> 0 | NNaN \<Rightarrow> False | _ \<Rightarrow> True)"

definition digit_char :: "nat \<Rightarrow> char" where
  "digit_char d = ''0123456789'' ! (d mod 10)"

fun show_nat :: "nat \<Rightarrow> string" where
  "show_nat n =
     (if n < 10 then [digit_char n]
      else show_nat (n div 10) @ [digit_char (n mod 10)])"

declare show_nat.simps [simp del]

text \<open>The rendering of a number inside a template string, \<^verbatim>\<open>`${n}`\<close>.\<close>

definition show_num :: "jsnum \<Rightarrow> string" where
  "show_num n =
     (case n of
        NInt i \<Rightarrow> (if i < 0 then ''-'' @ show_nat (nat (- i)) else show_nat (nat i))
      | NFrac _ txt \<Rightarrow> txt
      | NNaN \<Rightarrow> ''NaN''
      | NPosInf \<Rightarrow> ''Infinity''
      | NNegInf \<Rightarrow> ''-Infinity'')"

subsection \<open>Strings\<close>

text \<open>
  \<^verbatim>\<open>String.prototype.toLowerCase\<close> on the characters of the model: the letters
  \<^verbatim>\<open>A\<close> to \<^verbatim>\<open>Z\<close> go to \<^verbatim>\<open>a\<close> to \<^verbatim>\<open>z\<close>, every other character stays. A string
  of the model is a list of bytes; the letters outside ASCII that JavaScript lowers as
  well are not single characters here, and the phrases the classifiers look for are ASCII.
\<close>

definition lower_char :: "char \<Rightarrow> char" where
  "lower_char c =
     (case map_of (zip ''ABCDEFGHIJKLMNOPQRSTUVWXYZ'' ''abcdefghijklmnopqrstuvwxyz'') c of
        None \<Rightarrow> c
      | Some l \<Rightarrow> l)"

definition toLowerCase :: "string \<Rightarrow> string" where
  "toLowerCase s = map lower_char s"

text \<open>
  \<^verbatim>\<open>s.startsWith(p)\<close> and \<^verbatim>\<open>s.includes(p)\<close>, the latter as \<open>str_includes\<close>.
\<close>

fun startsWith :: "string \<Rightarrow> string \<Rightarrow> bool" where
  "startsWith s [] = True"
| "startsWith [] (p # ps) = False"
| "startsWith (c # cs) (p # ps) = (c = p \<and> startsWith cs ps)"

fun str_includes :: "string \<Rightarrow> string \<Rightarrow> bool" where
  "str_includes [] p = (p = [])"
| "str_includes (c # cs) p = (startsWith (c # cs) p \<or> str_includes cs p)"

section \<open>The typed views\<close>

record TelegramAccountStatus =
  accountId :: jsval
  enabled :: jsval
  configured :: jsval
  allowUnmentionedGroups :: jsval
  audit :: jsval
  probe :: jsval
  running :: jsval
  connected :: jsval
  lastError :: jsval

text \<open>
  An entry of \<^verbatim>\<open>TelegramGroupMembershipAuditSummary["groups"]\<close>. \<open>None\<close> stands for
  \<^verbatim>\<open>undefined\<close> in \<open>g_ok\<close>, \<open>matchKey\<close> and \<open>matchSource\<close> and for \<^verbatim>\<open>null\<close> in
  \<open>g_status\<close> and \<open>g_error\<close>.
\<close>

record GroupAuditEntry =
  chatId :: string
  g_ok :: "bool option"
  g_status :: "string option"
  g_error :: "string option"
  matchKey :: "string option"
  matchSource :: "string option"

record TelegramGroupMembershipAuditSummary =
  unresolvedGroups :: "jsnum option"
  hasWildcardUnmentionedGroups :: "bool option"
  groups :: "GroupAuditEntry list option"

text \<open>\<open>ok = None\<close> is \<^verbatim>\<open>undefined\<close>; \<open>status = None\<close> and \<open>error = None\<close> are \<^verbatim>\<open>null\<close>.\<close>

record TelegramProbeSummary =
  ok :: "bool option"
  status :: "jsnum option"
  error :: "string option"

datatype issue_kind = Config | Runtime | Auth

text \<open>\<^verbatim>\<open>ChannelStatusIssue\<close>; the field \<^verbatim>\<open>fix\<close> is \<open>fix_text\<close> here.\<close>

record ChannelStatusIssue =
  channel :: string
  issue_accountId :: string
  kind :: issue_kind
  message :: string
  fix_text :: string

section \<open>The helpers of \<^verbatim>\<open>shared.ts\<close>\<close>

text \<open>
  Modelled from the spec: \<^verbatim>\<open>isRecord\<close> of \<^verbatim>\<open>./shared.js\<close>, which is not among the
  sources. The spec: true iff the value is a non-null, non-array structural record.
\<close>

fun isRecord :: "jsval \<Rightarrow> bool" where
  "isRecord (JObj _) = True"
| "isRecord _ = False"

text \<open>
  Modelled from the spec: \<^verbatim>\<open>asString\<close> of \<^verbatim>\<open>./shared.js\<close>, which is not among the
  sources. The spec: returns the value if it is already a string, else absent (no coercion
  of numbers or booleans).
\<close>

fun asString :: "jsval \<Rightarrow> string option" where
  "asString (JStr s) = Some s"
| "asString _ = None"

text \<open>
  Modelled from the spec: \<^verbatim>\<open>resolveEnabledConfiguredAccountId\<close> of \<^verbatim>\<open>./shared.js\<close>,
  which is not among the sources. The spec: returns the account id only when
  \<^verbatim>\<open>enabled === true\<close> and \<^verbatim>\<open>configured === true\<close> and the id is a non-empty string.
\<close>

definition resolveEnabledConfiguredAccountId :: "TelegramAccountStatus \<Rightarrow> string option" where
  "resolveEnabledConfiguredAccountId account =
     (if enabled account = JBool True \<and> configured account = JBool True
      then (case accountId account of
              JStr s \<Rightarrow> (if s \<noteq> [] then Some s else None)
            | _ \<Rightarrow> None)
      else None)"

text \<open>
  Modelled from the spec: \<^verbatim>\<open>appendMatchMetadata\<close> of \<^verbatim>\<open>./shared.js\<close>, which is not
  among the sources. The spec: returns the message unchanged if both \<^verbatim>\<open>matchKey\<close> and
  \<^verbatim>\<open>matchSource\<close> are absent; otherwise appends a standardized trailing descriptor
  naming which configuration rule matched the group. The spec does not give the
  descriptor, so it is the parameter \<open>descr\<close>.
\<close>

definition appendMatchMetadata ::
  "(string option \<Rightarrow> string option \<Rightarrow> string) \<Rightarrow> string \<Rightarrow> string option \<Rightarrow> string option \<Rightarrow> string"
where
  "appendMatchMetadata descr msg mk ms =
     (if mk = None \<and> ms = None then msg else msg @ descr mk ms)"

section \<open>The readers\<close>

definition readTelegramAccountStatus :: "jsval \<Rightarrow> TelegramAccountStatus option" where
  "readTelegramAccountStatus v =
     (if \<not> isRecord v then None
      else Some \<lparr> accountId = getProp v ''accountId'',
                  enabled = getProp v ''enabled'',
                  configured = getProp v ''configured'',
                  allowUnmentionedGroups = getProp v ''allowUnmentionedGroups'',
                  audit = getProp v ''audit'',
                  probe = getProp v ''probe'',
                  running = getProp v ''running'',
                  connected = getProp v ''connected'',
                  lastError = getProp v ''lastError'' \<rparr>)"

text \<open>The callback of \<^verbatim>\<open>groupsRaw.map\<close>: \<open>None\<close> is its \<^verbatim>\<open>null\<close>.\<close>

definition readGroupEntry :: "jsval \<Rightarrow> GroupAuditEntry option" where
  "readGroupEntry entry =
     (if \<not> isRecord entry then None
      else case asString (getProp entry ''chatId'') of
             None \<Rightarrow> None
           | Some cid \<Rightarrow>
               if cid = [] then None
               else Some \<lparr> chatId = cid,
                           g_ok = (case getProp entry ''ok'' of JBool b \<Rightarrow> Some b | _ \<Rightarrow> None),
                           g_status = asString (getProp entry ''status''),
                           g_error = asString (getProp entry ''error''),
                           matchKey = asString (getProp entry ''matchKey''),
                           matchSource = asString (getProp entry ''matchSource'') \<rparr>)"

text \<open>
  \<^verbatim>\<open>groupsRaw.map(...).filter(Boolean)\<close>: the entries the callback maps to \<^verbatim>\<open>null\<close> are
  dropped, the others kept in order.
\<close>

definition readGroups :: "jsval list \<Rightarrow> GroupAuditEntry list" where
  "readGroups groupsRaw = List.map_filter readGroupEntry groupsRaw"

definition readTelegramGroupMembershipAuditSummary ::
  "jsval \<Rightarrow> TelegramGroupMembershipAuditSummary"
where
  "readTelegramGroupMembershipAuditSummary v =
     (if \<not> isRecord v
      then \<lparr> unresolvedGroups = None, hasWildcardUnmentionedGroups = None, groups = None \<rparr>
      else \<lparr> unresolvedGroups =
               (case getProp v ''unresolvedGroups'' of
                  JNum n \<Rightarrow> (if isFinite n then Some n else None)
                | _ \<Rightarrow> None),
             hasWildcardUnmentionedGroups =
               (case getProp v ''hasWildcardUnmentionedGroups'' of
                  JBool b \<Rightarrow> Some b
                | _ \<Rightarrow> None),
             groups =
               (case getProp v ''groups'' of
                  JArr groupsRaw \<Rightarrow> Some (readGroups groupsRaw)
                | _ \<Rightarrow> None) \<rparr>)"

definition readTelegramProbeSummary :: "jsval \<Rightarrow> TelegramProbeSummary option" where
  "readTelegramProbeSummary v =
     (if \<not> isRecord v then None
      else Some \<lparr> ok = (case getProp v ''ok'' of JBool b \<Rightarrow> Some b | _ \<Rightarrow> None),
                  status =
                    (case getProp v ''status'' of
                       JNum n \<Rightarrow> (if isFinite n then Some n else None)
                     | _ \<Rightarrow> None),
                  error = asString (getProp v ''error'') \<rparr>)"

section \<open>The signal classifiers\<close>

text \<open>
  \<open>errorText = None\<close> is \<^verbatim>\<open>undefined\<close>; \<open>status = None\<close> is \<^verbatim>\<open>null\<close> or \<^verbatim>\<open>undefined\<close>,
  which the two classifiers do not tell apart. \<^verbatim>\<open>normalized?.includes(p) === true\<close> is
  false for an absent text.
\<close>

definition isAuthErrorSummary :: "string option \<Rightarrow> jsnum option \<Rightarrow> bool" where
  "isAuthErrorSummary errorText st =
     (let normalized = map_option toLowerCase errorText in
        st = Some (NInt 401) \<or>
        st = Some (NInt 403) \<or>
        (case normalized of None \<Rightarrow> False | Some t \<Rightarrow> str_includes t ''unauthorized'') \<or>
        (case normalized of None \<Rightarrow> False | Some t \<Rightarrow> str_includes t ''invalid token'') \<or>
        (case normalized of None \<Rightarrow> False | Some t \<Rightarrow> str_includes t ''not authorized'') \<or>
        (case normalized of None \<Rightarrow> False | Some t \<Rightarrow> str_includes t ''bad request''))"

definition isNetworkErrorSummary :: "string option \<Rightarrow> jsnum option \<Rightarrow> bool" where
  "isNetworkErrorSummary errorText st =
     (if st \<noteq> None then False
      else case map_option toLowerCase errorText of
             None \<Rightarrow> True
           | Some normalized \<Rightarrow>
               if normalized = [] then True
               else str_includes normalized ''econnrefused'' \<or>
                    str_includes normalized ''econnreset'' \<or>
                    str_includes normalized ''enotfound'' \<or>
                    str_includes normalized ''eai_again'' \<or>
                    str_includes normalized ''etimedout'' \<or>
                    str_includes normalized ''net::err'' \<or>
                    str_includes normalized ''getaddrinfo'' \<or>
                    str_includes normalized ''network is down'' \<or>
                    str_includes normalized ''socket hang up'' \<or>
                    str_includes normalized ''fetch failed'' \<or>
                    str_includes normalized ''dns'' \<or>
                    str_includes normalized ''network'' \<or>
                    str_includes normalized ''timeout'')"

definition isDnsResolutionFailure :: "string option \<Rightarrow> bool" where
  "isDnsResolutionFailure errorText =
     (let normalized = (case errorText of None \<Rightarrow> [] | Some t \<Rightarrow> toLowerCase t) in
        str_includes normalized ''could not resolve host'' \<or>
        str_includes normalized ''enotfound'' \<or>
        str_includes normalized ''eai_again'' \<or>
        str_includes normalized ''getaddrinfo'' \<or>
        str_includes normalized ''dns'' \<or>
        str_includes normalized ''name or service not known'' \<or>
        str_includes normalized ''temporarily unresolvable'')"

section \<open>The issue synthesizer\<close>

text \<open>
  A \<^verbatim>\<open>string | null | undefined\<close> is truthy only when it is a non-empty string:
  \<open>truthy s\<close> is that string, for the tests \<^verbatim>\<open>summary.error ? ...\<close>,
  \<^verbatim>\<open>group.status ? ...\<close> and \<^verbatim>\<open>lastError ? ...\<close>.
\<close>

definition truthy :: "string option \<Rightarrow> string option" where
  "truthy s = (case s of None \<Rightarrow> None | Some t \<Rightarrow> if t = [] then None else Some t)"

datatype kindLabel = AuthLabel | RuntimeLabel

definition formatProbeIssueLabel :: "TelegramProbeSummary \<Rightarrow> kindLabel \<Rightarrow> string" where
  "formatProbeIssueLabel summary label =
     (let st = (case status summary of
                  Some n \<Rightarrow> '' (HTTP '' @ show_num n @ '')''
                | None \<Rightarrow> '''')
      in case truthy (error summary) of
           Some e \<Rightarrow>
             (if label = AuthLabel then ''Token validation failed'' @ st @ '': '' @ e
              else e @ st)
         | None \<Rightarrow>
             (if label = AuthLabel then ''Token validation failed'' @ st
              else ''Probe failed'' @ st))"

subsection \<open>The issues pushed\<close>

text \<open>
  The arrow of the first remediation text is U+2192; a string of the model is a list of
  bytes, so it is written as its three bytes in UTF-8.
\<close>

definition unmentionedGroupsIssue :: "string \<Rightarrow> ChannelStatusIssue" where
  "unmentionedGroupsIssue aid =
     \<lparr> channel = ''telegram'', issue_accountId = aid, kind = Config,
       message = ''Config allows unmentioned group messages (requireMention=false). Telegram Bot API privacy mode will block most group messages unless disabled.'',
       fix_text = ''In BotFather run /setprivacy '' @ [CHR 0xE2, CHR 0x86, CHR 0x92] @
                  '' Disable for this bot (then restart the gateway).'' \<rparr>"

definition wildcardIssue :: "string \<Rightarrow> ChannelStatusIssue" where
  \<open>wildcardIssue aid =
     \<lparr> channel = ''telegram'', issue_accountId = aid, kind = Config,
       message = ''Telegram groups config uses "*" with requireMention=false; membership probing is not possible without explicit group IDs.'',
       fix_text = ''Add explicit numeric group ids under channels.telegram.groups (or per-account groups) to enable probing.'' \<rparr>\<close>

definition unresolvedGroupsIssue :: "string \<Rightarrow> jsnum \<Rightarrow> ChannelStatusIssue" where
  "unresolvedGroupsIssue aid n =
     \<lparr> channel = ''telegram'', issue_accountId = aid, kind = Config,
       message = ''Some configured Telegram groups are not numeric IDs (unresolvedGroups='' @
                 show_num n @ ''). Membership probe can only check numeric group IDs.'',
       fix_text = ''Use numeric chat IDs (e.g. -100...) as keys in channels.telegram.groups for requireMention=false groups.'' \<rparr>"

definition groupIssue ::
  "(string option \<Rightarrow> string option \<Rightarrow> string) \<Rightarrow> string \<Rightarrow> GroupAuditEntry \<Rightarrow> ChannelStatusIssue"
where
  "groupIssue descr aid g =
     (let st = (case truthy (g_status g) of Some t \<Rightarrow> '' status='' @ t | None \<Rightarrow> '''');
          err = (case truthy (g_error g) of Some t \<Rightarrow> '': '' @ t | None \<Rightarrow> '''');
          baseMessage = ''Group '' @ chatId g @ '' not reachable by bot.'' @ st @ err
      in \<lparr> channel = ''telegram'', issue_accountId = aid, kind = Runtime,
           message = appendMatchMetadata descr baseMessage (matchKey g) (matchSource g),
           fix_text = ''Invite the bot to the group, then DM the bot once (/start) and restart the gateway.'' \<rparr>)"

definition disconnectedIssue :: "string \<Rightarrow> string option \<Rightarrow> ChannelStatusIssue" where
  "disconnectedIssue aid lastErr =
     (let isDnsIssue = isDnsResolutionFailure (Some (case lastErr of None \<Rightarrow> '''' | Some t \<Rightarrow> t))
      in \<lparr> channel = ''telegram'', issue_accountId = aid, kind = Runtime,
           message = ''Telegram runtime disconnected'' @
                     (case truthy lastErr of Some t \<Rightarrow> '': '' @ t | None \<Rightarrow> ''.''),
           fix_text =
             (if isDnsIssue
              then ''Restore DNS/network access from this host to api.telegram.org (or set channels.telegram.proxy / OPENCLAW_TELEGRAM_PROXY) and restart the gateway.''
              else ''Check Telegram API connectivity and token validity, then restart the gateway.'') \<rparr>)"

definition probeAuthIssue :: "string \<Rightarrow> TelegramProbeSummary \<Rightarrow> ChannelStatusIssue" where
  "probeAuthIssue aid p =
     \<lparr> channel = ''telegram'', issue_accountId = aid, kind = Auth,
       message = formatProbeIssueLabel p AuthLabel,
       fix_text = ''Update channels.telegram.* token from BotFather for this bot and restart the gateway.'' \<rparr>"

definition probeNetworkIssue :: "string \<Rightarrow> TelegramProbeSummary \<Rightarrow> ChannelStatusIssue" where
  "probeNetworkIssue aid p =
     (let isDnsFailure = isDnsResolutionFailure (error p)
      in \<lparr> channel = ''telegram'', issue_accountId = aid, kind = Runtime,
           message = ''Telegram bot API probe is not reachable: '' @
                     formatProbeIssueLabel p RuntimeLabel,
           fix_text =
             (if isDnsFailure
              then ''Restore DNS/network access from this host to api.telegram.org (or set channels.telegram.proxy / OPENCLAW_TELEGRAM_PROXY).''
              else ''Check gateway network/DNS egress to api.telegram.org and retry after connectivity is restored.'') \<rparr>)"

definition probeGenericIssue :: "string \<Rightarrow> TelegramProbeSummary \<Rightarrow> ChannelStatusIssue" where
  "probeGenericIssue aid p =
     \<lparr> channel = ''telegram'', issue_accountId = aid, kind = Runtime,
       message = ''Telegram bot probe failed: '' @ formatProbeIssueLabel p RuntimeLabel,
       fix_text = ''Verify the bot token and Telegram API access from the gateway host; restart gateway after any changes.'' \<rparr>"

subsection \<open>The loops\<close>

text \<open>
  The inner loop over \<^verbatim>\<open>audit.groups ?? []\<close>: \<open>issues\<close> is the array being pushed to,
  returned updated.
\<close>

fun groupLoop ::
  "(string option \<Rightarrow> string option \<Rightarrow> string) \<Rightarrow> string \<Rightarrow> ChannelStatusIssue list \<Rightarrow>
   GroupAuditEntry list \<Rightarrow> ChannelStatusIssue list"
where
  "groupLoop descr aid issues [] = issues"
| "groupLoop descr aid issues (g # gs) =
     (if g_ok g = Some True then groupLoop descr aid issues gs
      else groupLoop descr aid (issues @ [groupIssue descr aid g]) gs)"

text \<open>
  The probe-failure check, the last block of the loop body. Its \<^verbatim>\<open>continue\<close> after the
  auth issue skips the rest of the block, after which the body ends anyway.
\<close>

definition probeCheck ::
  "string \<Rightarrow> ChannelStatusIssue list \<Rightarrow> jsval \<Rightarrow> ChannelStatusIssue list"
where
  "probeCheck aid issues probeRaw =
     (case readTelegramProbeSummary probeRaw of
        None \<Rightarrow> issues
      | Some p \<Rightarrow>
          if ok p = Some False then
            (if isAuthErrorSummary (error p) (status p) then issues @ [probeAuthIssue aid p]
             else if isNetworkErrorSummary (error p) (status p)
                  then issues @ [probeNetworkIssue aid p]
                  else issues @ [probeGenericIssue aid p])
          else issues)"

text \<open>
  The body of the outer loop for one entry: \<open>issues\<close> before, \<open>issues\<close> after. The two
  early \<^verbatim>\<open>continue\<close>s return it unchanged; \<^verbatim>\<open>!accountId\<close> holds for an absent
  identifier and for the empty string.
\<close>

definition processAccount ::
  "(string option \<Rightarrow> string option \<Rightarrow> string) \<Rightarrow> ChannelStatusIssue list \<Rightarrow> jsval \<Rightarrow>
   ChannelStatusIssue list"
where
  "processAccount descr issues entry =
     (case readTelegramAccountStatus entry of
        None \<Rightarrow> issues
      | Some account \<Rightarrow>
          (case resolveEnabledConfiguredAccountId account of
             None \<Rightarrow> issues
           | Some aid \<Rightarrow>
               if aid = [] then issues
               else
                 let issues1 =
                       (if allowUnmentionedGroups account = JBool True
                        then issues @ [unmentionedGroupsIssue aid] else issues);
                     auditSummary = readTelegramGroupMembershipAuditSummary (audit account);
                     issues2 =
                       (if hasWildcardUnmentionedGroups auditSummary = Some True
                        then issues1 @ [wildcardIssue aid] else issues1);
                     issues3 =
                       (case unresolvedGroups auditSummary of
                          None \<Rightarrow> issues2
                        | Some n \<Rightarrow>
                            if num_truthy n \<and> num_gt_zero n
                            then issues2 @ [unresolvedGroupsIssue aid n] else issues2);
                     issues4 =
                       groupLoop descr aid issues3
                         (case groups auditSummary of None \<Rightarrow> [] | Some gs \<Rightarrow> gs);
                     isRunning = (running account = JBool True);
                     isConnected = (connected account = JBool True);
                     lastErr = asString (lastError account);
                     issues5 =
                       (if isRunning \<and> \<not> isConnected
                        then issues4 @ [disconnectedIssue aid lastErr] else issues4)
                 in probeCheck aid issues5 (probe account)))"

fun accountLoop ::
  "(string option \<Rightarrow> string option \<Rightarrow> string) \<Rightarrow> ChannelStatusIssue list \<Rightarrow> jsval list \<Rightarrow>
   ChannelStatusIssue list"
where
  "accountLoop descr issues [] = issues"
| "accountLoop descr issues (entry # rest) =
     accountLoop descr (processAccount descr issues entry) rest"

definition collectTelegramStatusIssues ::
  "(string option \<Rightarrow> string option \<Rightarrow> string) \<Rightarrow> jsval list \<Rightarrow> ChannelStatusIssue list"
where
  "collectTelegramStatusIssues descr accounts = accountLoop descr [] accounts"

section \<open>Notions used to state the properties\<close>

text \<open>
  The issues of the probe-failure check, told from the others by what they show: the
  auth issue is the only one of kind \<open>Auth\<close>, and the two runtime issues of the check
  have messages that begin as no other message does.
\<close>

definition is_probe_issue :: "ChannelStatusIssue \<Rightarrow> bool" where
  "is_probe_issue i =
     (kind i = Auth \<or>
      (kind i = Runtime \<and>
         (startsWith (message i) ''Telegram bot API probe is not reachable: '' \<or>
          startsWith (message i) ''Telegram bot probe failed: '')))"

text \<open>The issues of the per-group loop: runtime issues whose message begins \<^verbatim>\<open>Group \<close>.\<close>

definition is_group_issue :: "ChannelStatusIssue \<Rightarrow> bool" where
  "is_group_issue i = (kind i = Runtime \<and> startsWith (message i) ''Group '')"

text \<open>
  Structural identity of two values: equal primitives, arrays of equal length with
  structurally identical elements, objects that give structurally identical values for
  every property name (whatever the order of the properties; a property holding
  \<^verbatim>\<open>undefined\<close> counts as an absent one).
\<close>

function (sequential) deep_eq :: "jsval \<Rightarrow> jsval \<Rightarrow> bool" where
  "deep_eq (JArr xs) (JArr ys) = list_all2 deep_eq xs ys"
| "deep_eq (JObj kvs) (JObj kws) =
     (\<forall>k \<in> set (map fst kvs) \<union> set (map fst kws).
        deep_eq (getProp (JObj kvs) k) (getProp (JObj kws) k))"
| "deep_eq a b = (a = b)"
  by pat_completeness auto
termination
proof (relation "measure (\<lambda>(a, b). size a + size b)")
  show "wf (measure (\<lambda>(a, b). size a + size b))" by simp
next
  fix xs ys :: "jsval list" and x y
  assume "x \<in> set xs" "y \<in> set ys"
  then have "size x < Suc (size_list size xs)" "size y < Suc (size_list size ys)"
    by (simp_all add: less_Suc_eq_le size_list_estimation')
  then show "((x, y), (JArr xs, JArr ys)) \<in> measure (\<lambda>(a, b). size a + size b)"
    by simp
next
  fix kvs kws :: "(string \<times> jsval) list" and k
  have lookup: "size (getProp (JObj m) k) < size (JObj m)" for m
    by (induction m) (auto split: option.splits)
  from lookup [of kvs] lookup [of kws]
  show "((getProp (JObj kvs) k, getProp (JObj kws) k), (JObj kvs, JObj kws))
          \<in> measure (\<lambda>(a, b). size a + size b)"
    by simp
qed

section \<open>Properties of the classifiers\<close>

lemma startsWith_iff: "startsWith s p \<longleftrightarrow> (\<exists>v. s = p @ v)"
  by (induction s p rule: startsWith.induct) auto

lemma str_includes_iff: "str_includes s p \<longleftrightarrow> (\<exists>u v. s = u @ p @ v)"
proof (induction s)
  case Nil
  show ?case by auto
next
  case (Cons c cs)
  have "(\<exists>u v. c # cs = u @ p @ v) \<longleftrightarrow> (\<exists>v. c # cs = p @ v) \<or> (\<exists>u v. cs = u @ p @ v)"
  proof
    assume "\<exists>u v. c # cs = u @ p @ v"
    then obtain u v where uv: "c # cs = u @ p @ v" by blast
    show "(\<exists>v. c # cs = p @ v) \<or> (\<exists>u v. cs = u @ p @ v)"
    proof (cases u)
      case Nil
      with uv show ?thesis by auto
    next
      case (Cons a u')
      with uv have "cs = u' @ p @ v" by simp
      then show ?thesis by blast
    qed
  next
    assume "(\<exists>v. c # cs = p @ v) \<or> (\<exists>u v. cs = u @ p @ v)"
    then show "\<exists>u v. c # cs = u @ p @ v"
    proof
      assume "\<exists>v. c # cs = p @ v"
      then obtain v where "c # cs = [] @ p @ v" by auto
      then show ?thesis by blast
    next
      assume "\<exists>u v. cs = u @ p @ v"
      then obtain u v where "cs = u @ p @ v" by blast
      then have "c # cs = (c # u) @ p @ v" by simp
      then show ?thesis by blast
    qed
  qed
  with Cons show ?case by (simp add: startsWith_iff)
qed

text \<open>
  C4. The auth classifier is true whenever the status is exactly 401 or exactly 403,
  whatever the error text (absent included); when the status is neither, it is true exactly
  when the lower-cased error text contains one of the phrases \<^verbatim>\<open>unauthorized\<close>,
  \<^verbatim>\<open>invalid token\<close>, \<^verbatim>\<open>not authorized\<close>, \<^verbatim>\<open>bad request\<close>.
\<close>

theorem isAuthErrorSummary_status_or_phrase:
  "(st = Some (NInt 401) \<or> st = Some (NInt 403) \<longrightarrow> isAuthErrorSummary errorText st) \<and>
   (st \<noteq> Some (NInt 401) \<and> st \<noteq> Some (NInt 403) \<longrightarrow>
      isAuthErrorSummary errorText st =
        (\<exists>t. errorText = Some t \<and>
           (\<exists>p \<in> {''unauthorized'', ''invalid token'', ''not authorized'', ''bad request''}.
              \<exists>u v. toLowerCase t = u @ p @ v)))"
proof (cases errorText)
  case None
  then show ?thesis by (simp add: isAuthErrorSummary_def)
next
  case (Some t)
  then show ?thesis
    unfolding isAuthErrorSummary_def Let_def str_includes_iff by simp
qed

theorem isAuthErrorSummary_status_or_phrase_witness:
  "isAuthErrorSummary None (Some (NInt 401)) \<and>
   isAuthErrorSummary (Some ''boom'') (Some (NInt 403)) \<and>
   isAuthErrorSummary (Some ''Invalid Token'') (Some (NInt 500)) \<and>
   \<not> isAuthErrorSummary None (Some (NInt 500))"
proof -
  have a: "isAuthErrorSummary None (Some (NInt 401))"
    using isAuthErrorSummary_status_or_phrase [of "Some (NInt 401)" None] by simp
  have b: "isAuthErrorSummary (Some ''boom'') (Some (NInt 403))"
    using isAuthErrorSummary_status_or_phrase [of "Some (NInt 403)" "Some ''boom''"] by simp
  have low: "toLowerCase ''Invalid Token'' = [] @ ''invalid token'' @ []"
    by (simp add: toLowerCase_def lower_char_def)
  have c: "isAuthErrorSummary (Some ''Invalid Token'') (Some (NInt 500))"
    using isAuthErrorSummary_status_or_phrase [of "Some (NInt 500)" "Some ''Invalid Token''"] low
    by blast
  have d: "\<not> isAuthErrorSummary None (Some (NInt 500))"
    using isAuthErrorSummary_status_or_phrase [of "Some (NInt 500)" None] by simp
  from a b c d show ?thesis by simp
qed

text \<open>
  C5. The network classifier is false whenever the status is present (neither
  \<^verbatim>\<open>null\<close> nor \<^verbatim>\<open>undefined\<close>), for every number, 0 included, and every error text,
  absent included.
\<close>

theorem isNetworkErrorSummary_status_present:
  "st \<noteq> None \<Longrightarrow> \<not> isNetworkErrorSummary errorText st"
  by (simp add: isNetworkErrorSummary_def)

theorem isNetworkErrorSummary_status_present_witness:
  "Some (NInt 0) \<noteq> None \<and> \<not> isNetworkErrorSummary (Some ''ECONNREFUSED'') (Some (NInt 0)) \<and>
   \<not> isNetworkErrorSummary None (Some NNaN)"
  using isNetworkErrorSummary_status_present [of "Some (NInt 0)" "Some ''ECONNREFUSED''"]
    isNetworkErrorSummary_status_present [of "Some NNaN" None]
  by simp

text \<open>
  C6. When the status and the error text are both absent, the network classifier is true.
\<close>

theorem isNetworkErrorSummary_both_absent: "isNetworkErrorSummary None None"
  by (simp add: isNetworkErrorSummary_def)

text \<open>
  C9. With the status absent and the error text the empty string, the network classifier
  is true: the empty text takes the same early return as the absent text, before the
  list of connectivity substrings is looked at.
\<close>

theorem isNetworkErrorSummary_empty_text:
  "isNetworkErrorSummary (Some '''') None \<and>
   isNetworkErrorSummary (Some '''') None = isNetworkErrorSummary None None"
  by (simp add: isNetworkErrorSummary_def toLowerCase_def)

section \<open>Properties of the synthesizer\<close>

subsection \<open>The loops append\<close>

lemma groupLoop_eq:
  "groupLoop descr aid issues gs =
     issues @ map (groupIssue descr aid) (filter (\<lambda>g. g_ok g \<noteq> Some True) gs)"
  by (induction gs arbitrary: issues) simp_all

lemma probeCheck_append: "probeCheck aid issues probeRaw = issues @ probeCheck aid [] probeRaw"
  by (simp add: probeCheck_def split: option.splits)

lemma probeCheck_length: "length (probeCheck aid [] probeRaw) \<le> 1"
  by (simp add: probeCheck_def split: option.splits)

lemma processAccount_append:
  "processAccount descr issues entry = issues @ processAccount descr [] entry"
proof -
  have "processAccount descr is0 entry = is0 @ processAccount descr [] entry" for is0
    unfolding processAccount_def Let_def groupLoop_eq
    by (subst probeCheck_append, subst (2) probeCheck_append)
       (simp split: option.splits)
  then show ?thesis .
qed

lemma accountLoop_concat:
  "accountLoop descr issues accounts =
     issues @ concat (map (processAccount descr []) accounts)"
proof (induction accounts arbitrary: issues)
  case Nil
  show ?case by simp
next
  case (Cons entry rest)
  have "accountLoop descr issues (entry # rest) =
          processAccount descr issues entry @ concat (map (processAccount descr []) rest)"
    by (simp add: Cons.IH)
  also have "\<dots> = issues @ processAccount descr [] entry @
                     concat (map (processAccount descr []) rest)"
    by (subst processAccount_append) simp
  finally show ?case by simp
qed

lemma collect_concat:
  "collectTelegramStatusIssues descr accounts = concat (map (processAccount descr []) accounts)"
  by (simp add: collectTelegramStatusIssues_def accountLoop_concat)

subsection \<open>The gate\<close>

lemma gate_closed:
  assumes "\<not> (getProp entry ''enabled'' = JBool True \<and> getProp entry ''configured'' = JBool True \<and>
              (\<exists>s. getProp entry ''accountId'' = JStr s \<and> s \<noteq> []))"
  shows "processAccount descr issues entry = issues"
  using assms
  by (auto simp: processAccount_def readTelegramAccountStatus_def
        resolveEnabledConfiguredAccountId_def split: option.splits jsval.splits if_splits)

lemma gate_open:
  assumes "processAccount descr [] entry \<noteq> []"
  shows "\<exists>account aid. readTelegramAccountStatus entry = Some account \<and>
           resolveEnabledConfiguredAccountId account = Some aid \<and> aid \<noteq> []"
  using assms
  by (auto simp: processAccount_def split: option.splits if_splits)

text \<open>
  C1. An entry whose \<^verbatim>\<open>enabled\<close> and \<^verbatim>\<open>configured\<close> are not both the boolean
  \<^verbatim>\<open>true\<close>, or whose \<^verbatim>\<open>accountId\<close> is absent or not a non-empty string, leaves the
  issue list as it was when the loop body is done with it, and the output of
  \<open>collectTelegramStatusIssues\<close> is the output for the input without that entry,
  wherever the entry stands.
\<close>

theorem gated_account_emits_nothing:
  assumes "\<not> (getProp entry ''enabled'' = JBool True \<and> getProp entry ''configured'' = JBool True \<and>
              (\<exists>s. getProp entry ''accountId'' = JStr s \<and> s \<noteq> []))"
  shows "processAccount descr issues entry = issues \<and>
         collectTelegramStatusIssues descr (before @ entry # after) =
           collectTelegramStatusIssues descr (before @ after)"
proof -
  have "processAccount descr is0 entry = is0" for is0
    using assms by (rule gate_closed)
  then show ?thesis by (simp add: collect_concat)
qed

theorem gated_account_emits_nothing_witness:
  "processAccount (\<lambda>mk ms. '''')
     [unmentionedGroupsIssue ''a1'']
     (JObj [(''accountId'', JStr ''a4''), (''enabled'', JBool False), (''configured'', JBool True),
            (''allowUnmentionedGroups'', JBool True)])
     = [unmentionedGroupsIssue ''a1''] \<and>
   collectTelegramStatusIssues (\<lambda>mk ms. '''')
     ([] @ JObj [(''accountId'', JStr ''a4''), (''enabled'', JBool False), (''configured'', JBool True),
                 (''allowUnmentionedGroups'', JBool True)] # [])
     = collectTelegramStatusIssues (\<lambda>mk ms. '''') ([] @ [])"
  by (rule gated_account_emits_nothing) simp

subsection \<open>Scenario B\<close>

lemmas eval_defs =
  collectTelegramStatusIssues_def processAccount_def readTelegramAccountStatus_def
  resolveEnabledConfiguredAccountId_def readTelegramGroupMembershipAuditSummary_def
  readTelegramProbeSummary_def readGroups_def readGroupEntry_def List.map_filter_def
  probeCheck_def isAuthErrorSummary_def isNetworkErrorSummary_def isDnsResolutionFailure_def
  formatProbeIssueLabel_def truthy_def appendMatchMetadata_def
  show_num_def show_nat.simps digit_char_def toLowerCase_def lower_char_def
  isFinite_def num_truthy_def num_gt_zero_def Let_def

lemmas issue_defs =
  unmentionedGroupsIssue_def wildcardIssue_def unresolvedGroupsIssue_def groupIssue_def
  disconnectedIssue_def probeAuthIssue_def probeNetworkIssue_def probeGenericIssue_def

text \<open>
  C7. On the one-element input of Scenario B the output is exactly one issue, of kind
  \<open>Auth\<close>, whose message begins with \<^verbatim>\<open>Token validation failed\<close> and contains
  \<^verbatim>\<open>401\<close>.
\<close>

theorem scenario_B_one_auth_issue:
  "collectTelegramStatusIssues descr
     [JObj [(''accountId'', JStr ''a2''), (''enabled'', JBool True), (''configured'', JBool True),
            (''probe'', JObj [(''ok'', JBool False), (''status'', JNum (NInt 401)),
                              (''error'', JStr ''Unauthorized'')])]]
   = [\<lparr> channel = ''telegram'', issue_accountId = ''a2'', kind = Auth,
        message = ''Token validation failed (HTTP 401): Unauthorized'',
        fix_text = ''Update channels.telegram.* token from BotFather for this bot and restart the gateway.'' \<rparr>] \<and>
   startsWith ''Token validation failed (HTTP 401): Unauthorized'' ''Token validation failed'' \<and>
   str_includes ''Token validation failed (HTTP 401): Unauthorized'' ''401''"
  by (simp add: eval_defs probeAuthIssue_def)

subsection \<open>Channel and account identifier\<close>

lemma issue_channel:
  "channel (unmentionedGroupsIssue aid) = ''telegram''"
  "channel (wildcardIssue aid) = ''telegram''"
  "channel (unresolvedGroupsIssue aid n) = ''telegram''"
  "channel (groupIssue descr aid g) = ''telegram''"
  "channel (disconnectedIssue aid lastErr) = ''telegram''"
  "channel (probeAuthIssue aid p) = ''telegram''"
  "channel (probeNetworkIssue aid p) = ''telegram''"
  "channel (probeGenericIssue aid p) = ''telegram''"
  by (simp_all add: issue_defs Let_def)

lemma issue_account:
  "issue_accountId (unmentionedGroupsIssue aid) = aid"
  "issue_accountId (wildcardIssue aid) = aid"
  "issue_accountId (unresolvedGroupsIssue aid n) = aid"
  "issue_accountId (groupIssue descr aid g) = aid"
  "issue_accountId (disconnectedIssue aid lastErr) = aid"
  "issue_accountId (probeAuthIssue aid p) = aid"
  "issue_accountId (probeNetworkIssue aid p) = aid"
  "issue_accountId (probeGenericIssue aid p) = aid"
  by (simp_all add: issue_defs Let_def)

lemma issue_kind:
  "kind (unmentionedGroupsIssue aid) = Config"
  "kind (wildcardIssue aid) = Config"
  "kind (unresolvedGroupsIssue aid n) = Config"
  "kind (groupIssue descr aid g) = Runtime"
  "kind (disconnectedIssue aid lastErr) = Runtime"
  "kind (probeAuthIssue aid p) = Auth"
  "kind (probeNetworkIssue aid p) = Runtime"
  "kind (probeGenericIssue aid p) = Runtime"
  by (simp_all add: issue_defs Let_def)

lemma probeCheck_fields:
  "i \<in> set (probeCheck aid [] probeRaw) \<Longrightarrow> channel i = ''telegram'' \<and> issue_accountId i = aid"
  by (auto simp: probeCheck_def issue_channel issue_account split: option.splits if_splits)

lemma processAccount_fields:
  assumes "i \<in> set (processAccount descr [] entry)"
  shows "channel i = ''telegram'' \<and>
         (\<exists>account. readTelegramAccountStatus entry = Some account \<and>
            resolveEnabledConfiguredAccountId account = Some (issue_accountId i) \<and>
            issue_accountId i \<noteq> [])"
proof -
  from assms have "processAccount descr [] entry \<noteq> []" by auto
  then obtain account aid where
    acc: "readTelegramAccountStatus entry = Some account" and
    res: "resolveEnabledConfiguredAccountId account = Some aid" and
    ne: "aid \<noteq> []"
    using gate_open by blast
  from assms acc res ne have "channel i = ''telegram'' \<and> issue_accountId i = aid"
    unfolding processAccount_def Let_def groupLoop_eq
    by (subst (asm) probeCheck_append)
       (auto simp: issue_channel issue_account dest: probeCheck_fields
          split: option.splits if_splits)
  with acc res ne show ?thesis by simp
qed

text \<open>
  C10. Every issue of the output has the channel \<^verbatim>\<open>telegram\<close>, and its account
  identifier is the non-empty identifier resolved for the entry of the input whose pass
  through the loop body pushed it.
\<close>

theorem issues_channel_and_account:
  "\<forall>i \<in> set (collectTelegramStatusIssues descr accounts).
     channel i = ''telegram'' \<and>
     (\<exists>entry \<in> set accounts. \<exists>account.
        i \<in> set (processAccount descr [] entry) \<and>
        readTelegramAccountStatus entry = Some account \<and>
        resolveEnabledConfiguredAccountId account = Some (issue_accountId i) \<and>
        issue_accountId i \<noteq> [])"
proof
  fix i
  assume "i \<in> set (collectTelegramStatusIssues descr accounts)"
  then obtain entry where e: "entry \<in> set accounts" and i: "i \<in> set (processAccount descr [] entry)"
    by (auto simp: collect_concat)
  from processAccount_fields [OF i] obtain account where
    ch: "channel i = ''telegram''" and
    acc: "readTelegramAccountStatus entry = Some account" and
    res: "resolveEnabledConfiguredAccountId account = Some (issue_accountId i)" and
    ne: "issue_accountId i \<noteq> []"
    by blast
  from e i ch acc res ne
  show "channel i = ''telegram'' \<and>
     (\<exists>entry \<in> set accounts. \<exists>account.
        i \<in> set (processAccount descr [] entry) \<and>
        readTelegramAccountStatus entry = Some account \<and>
        resolveEnabledConfiguredAccountId account = Some (issue_accountId i) \<and>
        issue_accountId i \<noteq> [])"
    by blast
qed

theorem issues_channel_and_account_witness:
  "unmentionedGroupsIssue ''a1'' \<in>
     set (collectTelegramStatusIssues (\<lambda>mk ms. '''')
            [JObj [(''accountId'', JStr ''a1''), (''enabled'', JBool True),
                   (''configured'', JBool True), (''allowUnmentionedGroups'', JBool True)]]) \<and>
   channel (unmentionedGroupsIssue ''a1'') = ''telegram'' \<and>
   issue_accountId (unmentionedGroupsIssue ''a1'') \<noteq> []"
proof -
  have mem: "unmentionedGroupsIssue ''a1'' \<in>
     set (collectTelegramStatusIssues (\<lambda>mk ms. '''')
            [JObj [(''accountId'', JStr ''a1''), (''enabled'', JBool True),
                   (''configured'', JBool True), (''allowUnmentionedGroups'', JBool True)]])"
    by (simp add: eval_defs)
  from issues_channel_and_account [rule_format, OF mem]
  have "channel (unmentionedGroupsIssue ''a1'') = ''telegram''" and
    "issue_accountId (unmentionedGroupsIssue ''a1'') \<noteq> []"
    by auto
  with mem show ?thesis by simp
qed

subsection \<open>Which check an issue comes from\<close>

lemma startsWith_append: "startsWith (p @ s) p"
  by (simp add: startsWith_iff)

lemma other_issues_not_probe:
  "\<not> is_probe_issue (unmentionedGroupsIssue aid)"
  "\<not> is_probe_issue (wildcardIssue aid)"
  "\<not> is_probe_issue (unresolvedGroupsIssue aid n)"
  "\<not> is_probe_issue (groupIssue descr aid g)"
  "\<not> is_probe_issue (disconnectedIssue aid lastErr)"
  by (simp_all add: is_probe_issue_def issue_defs appendMatchMetadata_def Let_def)

lemma probe_issues_probe:
  "is_probe_issue (probeAuthIssue aid p)"
  "is_probe_issue (probeNetworkIssue aid p)"
  "is_probe_issue (probeGenericIssue aid p)"
  by (simp_all add: is_probe_issue_def issue_defs Let_def)

lemma other_issues_not_group:
  "\<not> is_group_issue (unmentionedGroupsIssue aid)"
  "\<not> is_group_issue (wildcardIssue aid)"
  "\<not> is_group_issue (unresolvedGroupsIssue aid n)"
  "\<not> is_group_issue (disconnectedIssue aid lastErr)"
  "\<not> is_group_issue (probeAuthIssue aid p)"
  "\<not> is_group_issue (probeNetworkIssue aid p)"
  "\<not> is_group_issue (probeGenericIssue aid p)"
  by (simp_all add: is_group_issue_def issue_defs Let_def)

lemma group_issue_group: "is_group_issue (groupIssue descr aid g)"
  by (simp add: is_group_issue_def groupIssue_def appendMatchMetadata_def Let_def)

lemma filter_probe_probeCheck:
  "filter is_probe_issue (probeCheck aid [] probeRaw) = probeCheck aid [] probeRaw"
  by (simp add: probeCheck_def probe_issues_probe split: option.splits)

lemma filter_group_probeCheck: "filter is_group_issue (probeCheck aid [] probeRaw) = []"
  by (simp add: probeCheck_def other_issues_not_group split: option.splits)

lemma processAccount_parts:
  assumes "readTelegramAccountStatus entry = Some account"
    and "resolveEnabledConfiguredAccountId account = Some aid"
    and "aid \<noteq> []"
  shows "processAccount descr [] entry =
           (if allowUnmentionedGroups account = JBool True
            then [unmentionedGroupsIssue aid] else []) @
           (if hasWildcardUnmentionedGroups
                 (readTelegramGroupMembershipAuditSummary (audit account)) = Some True
            then [wildcardIssue aid] else []) @
           (case unresolvedGroups (readTelegramGroupMembershipAuditSummary (audit account)) of
              None \<Rightarrow> []
            | Some n \<Rightarrow>
                if num_truthy n \<and> num_gt_zero n then [unresolvedGroupsIssue aid n] else []) @
           map (groupIssue descr aid)
             (filter (\<lambda>g. g_ok g \<noteq> Some True)
                (case groups (readTelegramGroupMembershipAuditSummary (audit account)) of
                   None \<Rightarrow> [] | Some gs \<Rightarrow> gs)) @
           (if running account = JBool True \<and> connected account \<noteq> JBool True
            then [disconnectedIssue aid (asString (lastError account))] else []) @
           probeCheck aid [] (probe account)"
  using assms unfolding processAccount_def Let_def groupLoop_eq
  by (subst probeCheck_append) (simp split: option.splits)

lemma filter_probe_groups: "filter is_probe_issue (map (groupIssue descr aid) gs) = []"
  by (induction gs) (simp_all add: other_issues_not_probe)

lemma filter_group_groups:
  "filter is_group_issue (map (groupIssue descr aid) gs) = map (groupIssue descr aid) gs"
  by (induction gs) (simp_all add: group_issue_group)

lemma filter_probe_account:
  assumes "readTelegramAccountStatus entry = Some account"
    and "resolveEnabledConfiguredAccountId account = Some aid"
    and "aid \<noteq> []"
  shows "filter is_probe_issue (processAccount descr [] entry) =
           probeCheck aid [] (probe account)"
  unfolding processAccount_parts [OF assms]
  by (simp add: other_issues_not_probe filter_probe_probeCheck filter_probe_groups
        split: option.splits)

lemma filter_group_account:
  assumes "readTelegramAccountStatus entry = Some account"
    and "resolveEnabledConfiguredAccountId account = Some aid"
    and "aid \<noteq> []"
  shows "filter is_group_issue (processAccount descr [] entry) =
           map (groupIssue descr aid)
             (filter (\<lambda>g. g_ok g \<noteq> Some True)
                (case groups (readTelegramGroupMembershipAuditSummary (audit account)) of
                   None \<Rightarrow> [] | Some gs \<Rightarrow> gs))"
  unfolding processAccount_parts [OF assms]
  by (simp add: other_issues_not_group filter_group_probeCheck filter_group_groups
        split: option.splits)

lemma not_resolved_no_issues:
  "(\<And>account aid. readTelegramAccountStatus entry = Some account \<Longrightarrow>
      resolveEnabledConfiguredAccountId account = Some aid \<Longrightarrow> aid = []) \<Longrightarrow>
   processAccount descr [] entry = []"
  by (cases "readTelegramAccountStatus entry")
     (auto simp: processAccount_def split: option.splits)

lemma probeCheck_cases:
  "probeCheck aid [] probeRaw =
     (case readTelegramProbeSummary probeRaw of
        None \<Rightarrow> []
      | Some p \<Rightarrow>
          if ok p = Some False then
            [if isAuthErrorSummary (error p) (status p) then probeAuthIssue aid p
             else if isNetworkErrorSummary (error p) (status p) then probeNetworkIssue aid p
             else probeGenericIssue aid p]
          else [])"
  by (simp add: probeCheck_def split: option.splits)

lemma probeCheck_nonempty_iff:
  "probeCheck aid [] probeRaw \<noteq> [] \<longleftrightarrow>
     isRecord probeRaw \<and> getProp probeRaw ''ok'' = JBool False"
  by (auto simp: probeCheck_cases readTelegramProbeSummary_def split: jsval.splits)

subsection \<open>The probe-failure check\<close>

text \<open>
  C2. For every entry, whatever the other checks push: the issues of the probe-failure
  check in what the loop body pushes are at most one; there is one exactly when the entry
  passes the gate (an identifier is resolved and is not empty) and its \<^verbatim>\<open>probe\<close> is record-shaped with \<^verbatim>\<open>ok\<close> the boolean
  \<^verbatim>\<open>false\<close>; and that one is the auth issue when the auth classifier holds of the
  probe's error and status, else the network issue when the network classifier holds,
  else the generic issue.
\<close>

theorem probe_failure_check_exclusive:
  "length (filter is_probe_issue (processAccount descr [] entry)) \<le> 1 \<and>
   (filter is_probe_issue (processAccount descr [] entry) \<noteq> [] \<longleftrightarrow>
      (\<exists>account aid.
         readTelegramAccountStatus entry = Some account \<and>
         resolveEnabledConfiguredAccountId account = Some aid \<and> aid \<noteq> [] \<and>
         isRecord (probe account) \<and> getProp (probe account) ''ok'' = JBool False)) \<and>
   (\<forall>account aid p.
      readTelegramAccountStatus entry = Some account \<longrightarrow>
      resolveEnabledConfiguredAccountId account = Some aid \<longrightarrow>
      aid \<noteq> [] \<longrightarrow>
      readTelegramProbeSummary (probe account) = Some p \<longrightarrow>
      ok p = Some False \<longrightarrow>
      filter is_probe_issue (processAccount descr [] entry) =
        [if isAuthErrorSummary (error p) (status p) then probeAuthIssue aid p
         else if isNetworkErrorSummary (error p) (status p) then probeNetworkIssue aid p
         else probeGenericIssue aid p])"
proof (cases "\<exists>account aid. readTelegramAccountStatus entry = Some account \<and>
                 resolveEnabledConfiguredAccountId account = Some aid \<and> aid \<noteq> []")
  case False
  then have "processAccount descr [] entry = []"
    by (intro not_resolved_no_issues) blast
  with False show ?thesis by auto
next
  case True
  then obtain account aid where
    acc: "readTelegramAccountStatus entry = Some account" and
    res: "resolveEnabledConfiguredAccountId account = Some aid" and
    ne: "aid \<noteq> []"
    by blast
  have flt: "filter is_probe_issue (processAccount descr [] entry) =
               probeCheck aid [] (probe account)"
    using acc res ne by (rule filter_probe_account)
  have one: "length (filter is_probe_issue (processAccount descr [] entry)) \<le> 1"
    unfolding flt by (rule probeCheck_length)
  have iff: "filter is_probe_issue (processAccount descr [] entry) \<noteq> [] \<longleftrightarrow>
      (\<exists>account aid.
         readTelegramAccountStatus entry = Some account \<and>
         resolveEnabledConfiguredAccountId account = Some aid \<and> aid \<noteq> [] \<and>
         isRecord (probe account) \<and> getProp (probe account) ''ok'' = JBool False)"
    unfolding flt probeCheck_nonempty_iff using acc res ne by auto
  have branch: "filter is_probe_issue (processAccount descr [] entry) =
        [if isAuthErrorSummary (error p) (status p) then probeAuthIssue aid' p
         else if isNetworkErrorSummary (error p) (status p) then probeNetworkIssue aid' p
         else probeGenericIssue aid' p]"
    if "readTelegramAccountStatus entry = Some account'"
      and "resolveEnabledConfiguredAccountId account' = Some aid'"
      and "aid' \<noteq> []"
      and "readTelegramProbeSummary (probe account') = Some p"
      and "ok p = Some False"
    for account' aid' p
  proof -
    from that acc res have "account' = account" "aid' = aid" by simp_all
    with that show ?thesis unfolding flt probeCheck_cases by simp
  qed
  from one iff branch show ?thesis by blast
qed

theorem probe_failure_check_exclusive_witness:
  "filter is_probe_issue
     (processAccount (\<lambda>mk ms. '''') []
        (JObj [(''accountId'', JStr ''a3''), (''enabled'', JBool True), (''configured'', JBool True),
               (''allowUnmentionedGroups'', JBool True), (''running'', JBool True),
               (''probe'', JObj [(''ok'', JBool False), (''error'', JStr ''ECONNREFUSED'')])]))
   = [probeNetworkIssue ''a3'' \<lparr> ok = Some False, status = None, error = Some ''ECONNREFUSED'' \<rparr>] \<and>
   length
     (processAccount (\<lambda>mk ms. '''') []
        (JObj [(''accountId'', JStr ''a3''), (''enabled'', JBool True), (''configured'', JBool True),
               (''allowUnmentionedGroups'', JBool True), (''running'', JBool True),
               (''probe'', JObj [(''ok'', JBool False), (''error'', JStr ''ECONNREFUSED'')])])) = 3"
proof -
  let ?e = "JObj [(''accountId'', JStr ''a3''), (''enabled'', JBool True), (''configured'', JBool True),
               (''allowUnmentionedGroups'', JBool True), (''running'', JBool True),
               (''probe'', JObj [(''ok'', JBool False), (''error'', JStr ''ECONNREFUSED'')])]"
  let ?p = "\<lparr> ok = Some False, status = None, error = Some ''ECONNREFUSED'' \<rparr>"
  obtain account where acc: "readTelegramAccountStatus ?e = Some account"
    by (simp add: readTelegramAccountStatus_def)
  then have res: "resolveEnabledConfiguredAccountId account = Some ''a3''"
    and prb: "readTelegramProbeSummary (probe account) = Some ?p"
    by (auto simp: readTelegramAccountStatus_def resolveEnabledConfiguredAccountId_def
          readTelegramProbeSummary_def)
  have okp: "ok ?p = Some False" and ne: "''a3'' \<noteq> []" by simp_all
  have cls: "\<not> isAuthErrorSummary (error ?p) (status ?p)"
    "isNetworkErrorSummary (error ?p) (status ?p)"
    by (simp_all add: isAuthErrorSummary_def isNetworkErrorSummary_def toLowerCase_def
          lower_char_def)
  from probe_failure_check_exclusive [of "\<lambda>mk ms. ''''" ?e] acc res ne prb okp
  have "filter is_probe_issue (processAccount (\<lambda>mk ms. '''') [] ?e) =
        [if isAuthErrorSummary (error ?p) (status ?p) then probeAuthIssue ''a3'' ?p
         else if isNetworkErrorSummary (error ?p) (status ?p) then probeNetworkIssue ''a3'' ?p
         else probeGenericIssue ''a3'' ?p]"
    by blast
  with cls have a: "filter is_probe_issue (processAccount (\<lambda>mk ms. '''') [] ?e) =
        [probeNetworkIssue ''a3'' ?p]"
    by simp
  have b: "length (processAccount (\<lambda>mk ms. '''') [] ?e) = 3"
    by (simp add: eval_defs)
  from a b show ?thesis by simp
qed

subsection \<open>The per-group loop\<close>

lemma failing_groups_of_raw:
  "map f (filter (\<lambda>g. g_ok g \<noteq> Some True) (readGroups groupsRaw)) =
     List.map_filter
       (\<lambda>e. case readGroupEntry e of
               None \<Rightarrow> None
             | Some g \<Rightarrow> if g_ok g = Some True then None else Some (f g))
       groupsRaw"
  unfolding readGroups_def
  by (induction groupsRaw) (auto simp: map_filter_simps split: option.splits)

text \<open>
  C3. For an entry that passes the gate (an identifier is resolved and is not empty) and whose \<^verbatim>\<open>audit\<close> is record-shaped with an
  array \<^verbatim>\<open>groups\<close>: the issues of the per-group loop in what the loop body pushes are,
  in this order, one issue for each entry that the audit reader keeps and whose \<^verbatim>\<open>ok\<close>
  is not the boolean \<^verbatim>\<open>true\<close>; read along the input array, entries the reader drops
  and entries with \<^verbatim>\<open>ok\<close> true give nothing, every other entry gives its one issue at
  its place; each of these issues is of kind \<open>Runtime\<close>.
\<close>

theorem group_issues_one_per_failing_entry:
  assumes "readTelegramAccountStatus entry = Some account"
    and "resolveEnabledConfiguredAccountId account = Some aid"
    and "aid \<noteq> []"
    and "isRecord (audit account)"
    and "getProp (audit account) ''groups'' = JArr groupsRaw"
  shows "filter is_group_issue (processAccount descr [] entry) =
           map (groupIssue descr aid)
             (filter (\<lambda>g. g_ok g \<noteq> Some True) (readGroups groupsRaw)) \<and>
         filter is_group_issue (processAccount descr [] entry) =
           List.map_filter
             (\<lambda>e. case readGroupEntry e of
                     None \<Rightarrow> None
                   | Some g \<Rightarrow> if g_ok g = Some True then None
                               else Some (groupIssue descr aid g))
             groupsRaw \<and>
         (\<forall>g. kind (groupIssue descr aid g) = Runtime)"
proof -
  have gs: "groups (readTelegramGroupMembershipAuditSummary (audit account)) =
              Some (readGroups groupsRaw)"
    using assms(4,5) by (simp add: readTelegramGroupMembershipAuditSummary_def)
  have a: "filter is_group_issue (processAccount descr [] entry) =
           map (groupIssue descr aid)
             (filter (\<lambda>g. g_ok g \<noteq> Some True) (readGroups groupsRaw))"
    using filter_group_account [OF assms(1,2,3), of descr]
    by (simp add: gs)
  from a show ?thesis
    by (simp add: failing_groups_of_raw issue_kind)
qed

theorem group_issues_one_per_failing_entry_witness:
  "filter is_group_issue
     (processAccount (\<lambda>mk ms. '''') []
        (JObj [(''accountId'', JStr ''a5''), (''enabled'', JBool True), (''configured'', JBool True),
               (''running'', JBool True),
               (''audit'', JObj [(''groups'',
                  JArr [JObj [(''chatId'', JStr ''-100''), (''ok'', JBool False),
                              (''status'', JStr ''kicked'')],
                        JObj [(''chatId'', JStr ''-200''), (''ok'', JBool True)],
                        JNull,
                        JObj [(''chatId'', JStr ''-300'')]])])]))
   = [groupIssue (\<lambda>mk ms. '''') ''a5''
        \<lparr> chatId = ''-100'', g_ok = Some False, g_status = Some ''kicked'', g_error = None,
          matchKey = None, matchSource = None \<rparr>,
      groupIssue (\<lambda>mk ms. '''') ''a5''
        \<lparr> chatId = ''-300'', g_ok = None, g_status = None, g_error = None,
          matchKey = None, matchSource = None \<rparr>]"
proof -
  let ?raw = "[JObj [(''chatId'', JStr ''-100''), (''ok'', JBool False),
                              (''status'', JStr ''kicked'')],
                        JObj [(''chatId'', JStr ''-200''), (''ok'', JBool True)],
                        JNull,
                        JObj [(''chatId'', JStr ''-300'')]]"
  let ?e = "JObj [(''accountId'', JStr ''a5''), (''enabled'', JBool True), (''configured'', JBool True),
               (''running'', JBool True),
               (''audit'', JObj [(''groups'', JArr ?raw)])]"
  obtain account where acc: "readTelegramAccountStatus ?e = Some account"
    by (simp add: readTelegramAccountStatus_def)
  then have res: "resolveEnabledConfiguredAccountId account = Some ''a5''"
    and ne: "''a5'' \<noteq> []"
    and aud: "isRecord (audit account)"
    and grp: "getProp (audit account) ''groups'' = JArr ?raw"
    by (auto simp: readTelegramAccountStatus_def resolveEnabledConfiguredAccountId_def)
  have "filter is_group_issue (processAccount (\<lambda>mk ms. '''') [] ?e) =
           map (groupIssue (\<lambda>mk ms. '''') ''a5'')
             (filter (\<lambda>g. g_ok g \<noteq> Some True) (readGroups ?raw))"
    using group_issues_one_per_failing_entry [OF acc res ne aud grp] by blast
  also have "readGroups ?raw =
     [\<lparr> chatId = ''-100'', g_ok = Some False, g_status = Some ''kicked'', g_error = None,
          matchKey = None, matchSource = None \<rparr>,
      \<lparr> chatId = ''-200'', g_ok = Some True, g_status = None, g_error = None,
          matchKey = None, matchSource = None \<rparr>,
      \<lparr> chatId = ''-300'', g_ok = None, g_status = None, g_error = None,
          matchKey = None, matchSource = None \<rparr>]"
    by (simp add: readGroups_def readGroupEntry_def List.map_filter_def)
  finally show ?thesis by simp
qed

subsection \<open>Determinism\<close>

lemma deep_eq_getProp: "deep_eq a b \<Longrightarrow> deep_eq (getProp a k) (getProp b k)"
proof (cases a)
  case (JObj kvs)
  assume d: "deep_eq a b"
  with JObj obtain kws where b: "b = JObj kws" by (cases b) auto
  show ?thesis
  proof (cases "k \<in> set (map fst kvs) \<union> set (map fst kws)")
    case True
    with d JObj b show ?thesis by simp
  next
    case False
    then have "map_of kvs k = None" "map_of kws k = None"
      by (simp_all add: map_of_eq_None_iff)
    with JObj b show ?thesis by simp
  qed
next
  case (JArr xs)
  assume "deep_eq a b"
  with JArr obtain ys where "b = JArr ys" by (cases b) auto
  with JArr show ?thesis by simp
qed (auto)

lemma deep_eq_isRecord: "deep_eq a b \<Longrightarrow> isRecord a = isRecord b"
  by (cases a; cases b) auto

lemma deep_eq_case:
  "deep_eq a b \<Longrightarrow>
     (case a of JUndefined \<Rightarrow> u | JNull \<Rightarrow> n | JBool x \<Rightarrow> fb x | JNum x \<Rightarrow> fn x
        | JStr x \<Rightarrow> fs x | JArr _ \<Rightarrow> ca | JObj _ \<Rightarrow> co) =
     (case b of JUndefined \<Rightarrow> u | JNull \<Rightarrow> n | JBool x \<Rightarrow> fb x | JNum x \<Rightarrow> fn x
        | JStr x \<Rightarrow> fs x | JArr _ \<Rightarrow> ca | JObj _ \<Rightarrow> co)"
  by (cases a; cases b) auto

lemma deep_eq_asString: "deep_eq a b \<Longrightarrow> asString a = asString b"
  by (cases a; cases b) auto

lemma deep_eq_is_true: "deep_eq a b \<Longrightarrow> (a = JBool True) = (b = JBool True)"
  by (cases a; cases b) auto

lemma deep_eq_readGroupEntry:
  assumes "deep_eq a b"
  shows "readGroupEntry a = readGroupEntry b"
proof -
  note p = deep_eq_getProp [OF assms]
  have r: "isRecord a = isRecord b" by (rule deep_eq_isRecord [OF assms])
  have s: "asString (getProp a k) = asString (getProp b k)" for k
    by (rule deep_eq_asString [OF p])
  have c: "(case getProp a ''ok'' of JBool x \<Rightarrow> Some x | _ \<Rightarrow> None) =
           (case getProp b ''ok'' of JBool x \<Rightarrow> Some x | _ \<Rightarrow> None)"
    by (rule deep_eq_case [OF p])
  show ?thesis unfolding readGroupEntry_def r s c ..
qed

lemma deep_eq_readGroups: "list_all2 deep_eq xs ys \<Longrightarrow> readGroups xs = readGroups ys"
  unfolding readGroups_def
  by (induction rule: list_all2_induct)
     (simp_all add: map_filter_simps deep_eq_readGroupEntry split: option.splits)

lemma deep_eq_groups:
  assumes "deep_eq a b"
  shows "(case a of JArr raw \<Rightarrow> Some (readGroups raw) | _ \<Rightarrow> None) =
         (case b of JArr raw \<Rightarrow> Some (readGroups raw) | _ \<Rightarrow> None)"
  using assms by (cases a; cases b) (auto dest: deep_eq_readGroups)

lemma deep_eq_readAudit:
  assumes "deep_eq a b"
  shows "readTelegramGroupMembershipAuditSummary a = readTelegramGroupMembershipAuditSummary b"
proof -
  note p = deep_eq_getProp [OF assms]
  have r: "isRecord a = isRecord b" by (rule deep_eq_isRecord [OF assms])
  have u: "(case getProp a ''unresolvedGroups'' of
              JNum n \<Rightarrow> (if isFinite n then Some n else None) | _ \<Rightarrow> None) =
           (case getProp b ''unresolvedGroups'' of
              JNum n \<Rightarrow> (if isFinite n then Some n else None) | _ \<Rightarrow> None)"
    by (rule deep_eq_case [OF p])
  have w: "(case getProp a ''hasWildcardUnmentionedGroups'' of JBool x \<Rightarrow> Some x | _ \<Rightarrow> None) =
           (case getProp b ''hasWildcardUnmentionedGroups'' of JBool x \<Rightarrow> Some x | _ \<Rightarrow> None)"
    by (rule deep_eq_case [OF p])
  have g: "(case getProp a ''groups'' of JArr raw \<Rightarrow> Some (readGroups raw) | _ \<Rightarrow> None) =
           (case getProp b ''groups'' of JArr raw \<Rightarrow> Some (readGroups raw) | _ \<Rightarrow> None)"
    by (rule deep_eq_groups [OF p])
  show ?thesis unfolding readTelegramGroupMembershipAuditSummary_def r u w g ..
qed

lemma deep_eq_readProbe:
  assumes "deep_eq a b"
  shows "readTelegramProbeSummary a = readTelegramProbeSummary b"
proof -
  note p = deep_eq_getProp [OF assms]
  have r: "isRecord a = isRecord b" by (rule deep_eq_isRecord [OF assms])
  have s: "asString (getProp a k) = asString (getProp b k)" for k
    by (rule deep_eq_asString [OF p])
  have c: "(case getProp a ''ok'' of JBool x \<Rightarrow> Some x | _ \<Rightarrow> None) =
           (case getProp b ''ok'' of JBool x \<Rightarrow> Some x | _ \<Rightarrow> None)"
    by (rule deep_eq_case [OF p])
  have n: "(case getProp a ''status'' of
              JNum n \<Rightarrow> (if isFinite n then Some n else None) | _ \<Rightarrow> None) =
           (case getProp b ''status'' of
              JNum n \<Rightarrow> (if isFinite n then Some n else None) | _ \<Rightarrow> None)"
    by (rule deep_eq_case [OF p])
  show ?thesis unfolding readTelegramProbeSummary_def r s c n ..
qed

text \<open>The loop body depends on an entry only through these readings of it.\<close>

lemma processAccount_reads:
  assumes r: "isRecord a = isRecord b"
    and t: "\<And>k. (getProp a k = JBool True) = (getProp b k = JBool True)"
    and s: "\<And>k. asString (getProp a k) = asString (getProp b k)"
    and au: "readTelegramGroupMembershipAuditSummary (getProp a ''audit'') =
             readTelegramGroupMembershipAuditSummary (getProp b ''audit'')"
    and pr: "readTelegramProbeSummary (getProp a ''probe'') =
             readTelegramProbeSummary (getProp b ''probe'')"
  shows "processAccount descr issues a = processAccount descr issues b"
proof -
  have i: "(case getProp a ''accountId'' of JStr s \<Rightarrow> (if s \<noteq> [] then Some s else None) | _ \<Rightarrow> None) =
        (case getProp b ''accountId'' of JStr s \<Rightarrow> (if s \<noteq> [] then Some s else None) | _ \<Rightarrow> None)"
    using s [of "''accountId''"]
    by (cases "getProp a ''accountId''"; cases "getProp b ''accountId''") auto
  show ?thesis
    unfolding processAccount_def readTelegramAccountStatus_def
      resolveEnabledConfiguredAccountId_def probeCheck_def r
    by (simp add: t s au pr i Let_def split: option.splits)
qed

lemma deep_eq_processAccount:
  assumes "deep_eq a b"
  shows "processAccount descr issues a = processAccount descr issues b"
proof (rule processAccount_reads)
  note p = deep_eq_getProp [OF assms]
  show "isRecord a = isRecord b" by (rule deep_eq_isRecord [OF assms])
  show "(getProp a k = JBool True) = (getProp b k = JBool True)" for k
    by (rule deep_eq_is_true [OF p])
  show "asString (getProp a k) = asString (getProp b k)" for k
    by (rule deep_eq_asString [OF p])
  show "readTelegramGroupMembershipAuditSummary (getProp a ''audit'') =
             readTelegramGroupMembershipAuditSummary (getProp b ''audit'')"
    by (rule deep_eq_readAudit [OF p])
  show "readTelegramProbeSummary (getProp a ''probe'') =
             readTelegramProbeSummary (getProp b ''probe'')"
    by (rule deep_eq_readProbe [OF p])
qed

lemma deep_eq_accountLoop:
  "list_all2 deep_eq xs ys \<Longrightarrow> accountLoop descr issues xs = accountLoop descr issues ys"
proof (induction arbitrary: issues rule: list_all2_induct)
  case Nil
  show ?case by simp
next
  case (Cons x xs y ys)
  then show ?case by (simp add: deep_eq_processAccount [of x y])
qed

lemma deep_eq_refl: "deep_eq a a"
proof (induction a)
  case (JArr xs)
  then show ?case by (simp add: list_all2_same)
next
  case (JObj kvs)
  have "deep_eq (getProp (JObj kvs) k) (getProp (JObj kvs) k)" for k
  proof (cases "map_of kvs k")
    case None
    then show ?thesis by simp
  next
    case (Some v)
    then have "(k, v) \<in> set kvs" by (rule map_of_SomeD)
    then have "deep_eq v v" by (rule JObj.IH) simp
    with Some show ?thesis by simp
  qed
  then show ?case by simp
qed simp_all

text \<open>
  C8. Two input sequences of the same length whose entries are structurally identical,
  place by place, give the same list of issues, in the same order. An issue holds
  strings and a kind only, so equal lists are deep-equal lists.
\<close>

theorem collect_deterministic:
  "list_all2 deep_eq xs ys \<Longrightarrow>
   collectTelegramStatusIssues descr xs = collectTelegramStatusIssues descr ys"
  unfolding collectTelegramStatusIssues_def by (rule deep_eq_accountLoop)

theorem collect_deterministic_witness:
  "list_all2 deep_eq
     [JObj [(''accountId'', JStr ''a2''), (''enabled'', JBool True), (''configured'', JBool True),
            (''probe'', JObj [(''ok'', JBool False), (''status'', JNum (NInt 401)),
                              (''error'', JStr ''Unauthorized'')])]]
     [JObj [(''probe'', JObj [(''error'', JStr ''Unauthorized''), (''ok'', JBool False),
                              (''status'', JNum (NInt 401))]),
            (''configured'', JBool True), (''enabled'', JBool True), (''accountId'', JStr ''a2''),
            (''audit'', JUndefined)]] \<and>
   collectTelegramStatusIssues (\<lambda>mk ms. '''')
     [JObj [(''accountId'', JStr ''a2''), (''enabled'', JBool True), (''configured'', JBool True),
            (''probe'', JObj [(''ok'', JBool False), (''status'', JNum (NInt 401)),
                              (''error'', JStr ''Unauthorized'')])]] =
   collectTelegramStatusIssues (\<lambda>mk ms. '''')
     [JObj [(''probe'', JObj [(''error'', JStr ''Unauthorized''), (''ok'', JBool False),
                              (''status'', JNum (NInt 401))]),
            (''configured'', JBool True), (''enabled'', JBool True), (''accountId'', JStr ''a2''),
            (''audit'', JUndefined)]]"
proof -
  have d: "list_all2 deep_eq
     [JObj [(''accountId'', JStr ''a2''), (''enabled'', JBool True), (''configured'', JBool True),
            (''probe'', JObj [(''ok'', JBool False), (''status'', JNum (NInt 401)),
                              (''error'', JStr ''Unauthorized'')])]]
     [JObj [(''probe'', JObj [(''error'', JStr ''Unauthorized''), (''ok'', JBool False),
                              (''status'', JNum (NInt 401))]),
            (''configured'', JBool True), (''enabled'', JBool True), (''accountId'', JStr ''a2''),
            (''audit'', JUndefined)]]"
    by simp
  from d collect_deterministic [OF d] show ?thesis by simp
qed

end
